theory Spec2Isabelle
  imports Complex_Main
begin

section \<open>Bond math of the assessment tool\<close>

text \<open>
  The component file of the tool defines four numeric routines (\<open>priceBond\<close>,
  \<open>macaulayDuration\<close>, \<open>modifiedDuration\<close>, \<open>yieldToWorstApprox\<close>) and one memoised
  computation inside the component \<open>BondAssessmentTool\<close>.

  JavaScript numbers are read here as exact real numbers: \<open>+\<close>, \<open>*\<close>, \<open>/\<close> and
  \<open>Math.pow\<close> with an integer exponent are the operations of the field of reals, so
  rounding error, overflow, \<open>Infinity\<close> and \<open>NaN\<close> are outside the model. A division by
  zero is \<open>0\<close> in HOL and not \<open>Infinity\<close>; the statements below that depend on a
  denominator carry the hypothesis which keeps it away from zero.
  \<open>Math.round x\<close> is \<open>\<lfloor>x + 1/2\<rfloor>\<close>, which is \<^const>\<open>round\<close>.

  One product is not left to that reading where a statement fixes the number of cash
  flows. \<open>priceBond\<close> rounds the product \<open>years * freq\<close> of two doubles to an integer, and
  a product that lies just below a half-integer can be computed as that half-integer
  (at twelve payments a year, \<open>0.4583333333333333 * 12\<close> is \<open>5.5\<close> in doubles), which
  \<open>Math.round\<close> then takes one period up. \<open>priceBond_at\<close> is the body of \<open>priceBond\<close>
  with the product as the code computes it given as \<open>p\<close>; \<open>priceBond\<close> is that body at
  the exact product, which is what the code computes whenever the exact product is itself
  a double (every integer and half-integer in range, hence every position of the
  sliders).
  The payment frequency is the count the radio group sets (1, 2, 4 or 12): a natural
  number. Loop counters are integers, and each \<open>for\<close> loop is a recursive function on
  its counter and accumulator.

  The routines destructure their argument object with defaults for absent fields. Every
  call in the file passes all the fields its callee reads, so an argument object is a
  record with all of them present.
\<close>

subsection \<open>Argument objects\<close>

record BaseArgs =
  face :: real
  couponRate :: real
  ytm :: real
  years :: real
  freq :: nat

record BondTerms = BaseArgs +
  callable :: bool
  callYears :: real
  callPrice :: real

subsection \<open>priceBond\<close>

text \<open>
  Two expressions open \<open>priceBond\<close>, \<open>macaulayDuration\<close> and \<open>yieldToWorstApprox\<close>
  alike: the period count \<^verbatim>\<open>Math.max(1, Math.round(years * freq))\<close> (with
  \<open>callYears\<close> for \<open>years\<close> in the last) and the coupon per period
  \<^verbatim>\<open>(couponRate * face) / freq\<close>. \<open>periods_at p\<close> is the period count at a product
  \<open>p\<close>, and \<open>periods\<close> the period count at the exact product.
\<close>

definition periods_at :: "real \<Rightarrow> int" where
  "periods_at p = max 1 (round p)"

definition periods :: "real \<Rightarrow> nat \<Rightarrow> int" where
  "periods yrs fq = periods_at (yrs * real fq)"

definition coupon :: "real \<Rightarrow> real \<Rightarrow> nat \<Rightarrow> real" where
  "coupon cr fc fq = (cr * fc) / real fq"

text \<open>
  \<^verbatim>\<open>for (let t = 1; t <= n; t++) pvCoupons += c / Math.pow(1 + r, t);\<close>
  The same loop, with the accumulator called \<open>pv\<close>, is in \<open>yieldToWorstApprox\<close>.
\<close>

function coupon_loop :: "real \<Rightarrow> real \<Rightarrow> int \<Rightarrow> int \<Rightarrow> real \<Rightarrow> real" where
  "coupon_loop c r n t pv =
     (if t \<le> n then coupon_loop c r n (t + 1) (pv + c / (1 + r) ^ nat t) else pv)"
  by pat_completeness auto
termination
  by (relation "measure (\<lambda>(c, r, n, t, pv). nat (n + 1 - t))") auto

declare coupon_loop.simps [simp del]

definition priceBond_at :: "real \<Rightarrow> 'a BaseArgs_scheme \<Rightarrow> real" where
  "priceBond_at p b =
     (let n = periods_at p;
          c = coupon (couponRate b) (face b) (freq b);
          r = ytm b / real (freq b);
          pvCoupons = coupon_loop c r n 1 0;
          pvFace = face b / (1 + r) ^ nat n
      in pvCoupons + pvFace)"

definition priceBond :: "'a BaseArgs_scheme \<Rightarrow> real" where
  "priceBond b = priceBond_at (years b * real (freq b)) b"

subsection \<open>macaulayDuration and modifiedDuration\<close>

function duration_loop ::
  "real \<Rightarrow> real \<Rightarrow> real \<Rightarrow> nat \<Rightarrow> int \<Rightarrow> int \<Rightarrow> real \<Rightarrow> real" where
  "duration_loop c fc r fq n t num =
     (if t \<le> n then
        (let tYears = real_of_int t / real fq;
             cf = (if t = n then c + fc else c)
         in duration_loop c fc r fq n (t + 1) (num + (tYears * cf) / (1 + r) ^ nat t))
      else num)"
  by pat_completeness auto
termination
  by (relation "measure (\<lambda>(c, fc, r, fq, n, t, num). nat (n + 1 - t))") auto

declare duration_loop.simps [simp del]

definition macaulayDuration :: "'a BaseArgs_scheme \<Rightarrow> real" where
  "macaulayDuration b =
     (let n = periods (years b) (freq b);
          c = coupon (couponRate b) (face b) (freq b);
          r = ytm b / real (freq b);
          price = priceBond \<lparr>face = face b, couponRate = couponRate b, ytm = ytm b,
                             years = years b, freq = freq b\<rparr>;
          num = duration_loop c (face b) r (freq b) n 1 0;
          dur = num / price
      in dur)"

definition modifiedDuration :: "'a BaseArgs_scheme \<Rightarrow> real" where
  "modifiedDuration args =
     (let Dmac = macaulayDuration args;
          r = ytm args / real (freq args)
      in Dmac / (1 + r))"

subsection \<open>yieldToWorstApprox\<close>

text \<open>
  The bisection loop \<^verbatim>\<open>for (let iter = 0; iter < 60; iter++) { ... }\<close> with its two
  mutable bounds; the result is the pair of bounds the loop leaves behind.
\<close>

function bisect_loop ::
  "real \<Rightarrow> real \<Rightarrow> int \<Rightarrow> real \<Rightarrow> real \<Rightarrow> real \<Rightarrow> nat \<Rightarrow> real \<times> real" where
  "bisect_loop c cp n target lo hi iter =
     (if iter < 60 then
        (let mid = (lo + hi) / 2;
             r = mid;
             pv = coupon_loop c r n 1 0;
             pv = pv + cp / (1 + r) ^ nat n
         in if pv > target then bisect_loop c cp n target mid hi (iter + 1)
            else bisect_loop c cp n target lo mid (iter + 1))
      else (lo, hi))"
  by pat_completeness auto
termination
  by (relation "measure (\<lambda>(c, cp, n, target, lo, hi, iter). 60 - iter)") (auto simp: Let_def)

declare bisect_loop.simps [simp del]

definition yieldToWorstApprox :: "BondTerms \<Rightarrow> real" where
  "yieldToWorstApprox b =
     (if \<not> callable b then ytm b
      else
        (let marketPrice = priceBond \<lparr>face = face b, couponRate = couponRate b, ytm = ytm b,
                                      years = years b, freq = freq b\<rparr>;
             n = periods (callYears b) (freq b);
             c = coupon (couponRate b) (face b) (freq b);
             target = marketPrice;
             (lo, hi) = bisect_loop c (callPrice b) n target (- 0.99) 1.0 0;
             rMid = (lo + hi) / 2;
             ytc = max (- 0.99) ((1 + rMid) ^ freq b - 1)
         in min (ytm b) ytc))"

subsection \<open>The component's state and its memoised computation\<close>

datatype BondType = Treasury | Corporate | Muni

text \<open>The ten \<open>useState\<close> cells of \<open>BondAssessmentTool\<close>.\<close>

record UIState =
  ui_face :: real
  ui_couponPct :: real
  ui_ytmPct :: real
  ui_years :: real
  ui_freq :: nat
  ui_bondType :: BondType
  ui_callable :: bool
  ui_putable :: bool
  ui_sinking :: bool
  ui_convertible :: bool

text \<open>One chart point; \<open>PriceCallable\<close> is the key \<^verbatim>\<open>"Price (Callable est)"\<close>.\<close>

record Point =
  yld :: real
  Price :: real
  PriceCallable :: real

record Computed =
  price :: real
  Dmac :: real
  Dmod :: real
  cy :: real
  ytw :: real
  points :: "Point list"

text \<open>
  The body of the sampling loop, for one offset \<open>bps\<close>. Its arguments are the variables
  the loop closes over (\<open>face\<close>, \<open>couponRate\<close>, \<open>ytm\<close>, \<open>years\<close>, \<open>freq\<close>,
  \<open>callable\<close>). \<open>grid_yield\<close> is the local \<open>y\<close>, \<open>grid_ytw\<close> the local \<open>ytwGrid\<close>,
  and \<open>grid_point\<close> the object pushed.
\<close>

definition grid_yield :: "real \<Rightarrow> int \<Rightarrow> real" where
  "grid_yield ym bps = max 0.0001 (ym + real_of_int bps / 10000)"

definition grid_ytw :: "real \<Rightarrow> real \<Rightarrow> real \<Rightarrow> real \<Rightarrow> nat \<Rightarrow> bool \<Rightarrow> real" where
  "grid_ytw fc cr y yrs fq cl =
     yieldToWorstApprox
       \<lparr>face = fc, couponRate = cr, ytm = y, years = yrs, freq = fq, callable = cl,
        callYears = min yrs (real_of_int (max 2 (round (yrs / 2)))), callPrice = fc\<rparr>"

definition grid_point ::
  "real \<Rightarrow> real \<Rightarrow> real \<Rightarrow> real \<Rightarrow> nat \<Rightarrow> bool \<Rightarrow> int \<Rightarrow> Point" where
  "grid_point fc cr ym yrs fq cl bps =
     (let y = grid_yield ym bps;
          p = priceBond \<lparr>face = fc, couponRate = cr, ytm = y, years = yrs, freq = fq\<rparr>;
          pCallable =
            (if cl then
               (let ytwGrid = grid_ytw fc cr y yrs fq cl
                in priceBond \<lparr>face = fc, couponRate = cr, ytm = ytwGrid, years = yrs,
                               freq = fq\<rparr>)
             else p)
      in \<lparr>yld = y * 100, Price = p, PriceCallable = pCallable\<rparr>)"

text \<open>
  \<^verbatim>\<open>for (let bps = -200; bps <= 200; bps += 10) { ...; points.push({...}); }\<close>
\<close>

function points_loop ::
  "real \<Rightarrow> real \<Rightarrow> real \<Rightarrow> real \<Rightarrow> nat \<Rightarrow> bool \<Rightarrow> int \<Rightarrow> Point list \<Rightarrow> Point list" where
  "points_loop fc cr ym yrs fq cl bps pts =
     (if bps \<le> 200 then
        points_loop fc cr ym yrs fq cl (bps + 10) (pts @ [grid_point fc cr ym yrs fq cl bps])
      else pts)"
  by pat_completeness auto
termination
  by (relation "measure (\<lambda>(fc, cr, ym, yrs, fq, cl, bps, pts). nat (210 - bps))") auto

declare points_loop.simps [simp del]

definition computed :: "UIState \<Rightarrow> Computed" where
  "computed s =
     (let couponRate' = ui_couponPct s / 100;
          ytm' = ui_ytmPct s / 100;
          baseArgs = \<lparr>face = ui_face s, couponRate = couponRate', ytm = ytm',
                      years = ui_years s, freq = ui_freq s\<rparr>;
          price' = priceBond baseArgs;
          Dmac' = macaulayDuration baseArgs;
          Dmod' = modifiedDuration baseArgs;
          cy' = (couponRate' * ui_face s) / price';
          ytw' = yieldToWorstApprox
                   \<lparr>face = ui_face s, couponRate = couponRate', ytm = ytm',
                    years = ui_years s, freq = ui_freq s, callable = ui_callable s,
                    callYears = min (ui_years s)
                                  (real_of_int (max 2 (round (ui_years s / 2)))),
                    callPrice = ui_face s\<rparr>;
          points' = points_loop (ui_face s) couponRate' ytm' (ui_years s) (ui_freq s)
                      (ui_callable s) (- 200) []
      in \<lparr>price = price', Dmac = Dmac', Dmod = Dmod', cy = cy', ytw = ytw',
          points = points'\<rparr>)"

section \<open>The formulas of the specification\<close>

subsection \<open>Present value and the search for the yield to call\<close>

text \<open>
  The present value the specification writes for a level-coupon instrument: the sum, for
  periods \<open>t = 1..m\<close>, of the coupon discounted by \<open>(1 + r) ^ t\<close>, plus the redemption
  amount discounted by \<open>(1 + r) ^ m\<close>.
\<close>

definition pv_flows :: "real \<Rightarrow> real \<Rightarrow> nat \<Rightarrow> real \<Rightarrow> real" where
  "pv_flows c redemption m r = (\<Sum>t = 1..m. c / (1 + r) ^ t) + redemption / (1 + r) ^ m"

text \<open>
  One bisection step as the specification words it: if the present value at the
  midpoint exceeds the target, the lower bound moves up to the midpoint; otherwise the
  upper bound moves down to it.
\<close>

definition bisect_step :: "(real \<Rightarrow> real) \<Rightarrow> real \<Rightarrow> real \<times> real \<Rightarrow> real \<times> real" where
  "bisect_step pv target =
     (\<lambda>(lo, hi). let mid = (lo + hi) / 2 in if pv mid > target then (mid, hi) else (lo, mid))"

text \<open>
  The per-period rate of the specification's search: periods to call
  \<open>n = max 1 (round (callYears * freq))\<close>, the present value of the coupons to the call
  date plus the call price at the call date, sixty bisection steps from the bounds
  \<open>-0.99\<close> and \<open>1.0\<close> against the price at the stated yield over the full maturity, and
  the midpoint of the bounds that remain.
\<close>

definition call_flows :: "BondTerms \<Rightarrow> real \<Rightarrow> real" where
  "call_flows b =
     pv_flows (couponRate b * face b / real (freq b)) (callPrice b)
       (nat (max 1 (round (callYears b * real (freq b)))))"

definition call_rate :: "BondTerms \<Rightarrow> real" where
  "call_rate b =
     (let (lo, hi) = (bisect_step (call_flows b) (priceBond b) ^^ 60) (- 0.99, 1.0)
      in (lo + hi) / 2)"

text \<open>The approximated yield to call: \<open>(1 + r) ^ freq - 1\<close>, floored at \<open>-0.99\<close>.\<close>

definition yield_to_call :: "BondTerms \<Rightarrow> real" where
  "yield_to_call b = max (- 0.99) ((1 + call_rate b) ^ freq b - 1)"

subsection \<open>Reading the chart points\<close>

text \<open>
  The sampled yields as decimals: a chart point stores the percentage \<open>y * 100\<close>.
\<close>

definition sampled_yields :: "UIState \<Rightarrow> real list" where
  "sampled_yields s = map (\<lambda>p. yld p / 100) (points (computed s))"

text \<open>The offsets in basis points: from \<open>-200\<close> to \<open>200\<close> in steps of \<open>10\<close>.\<close>

definition grid_offsets :: "int list" where
  "grid_offsets = map (\<lambda>k. - 200 + 10 * int k) [0..<41]"

section \<open>Properties\<close>

subsection \<open>The coupon loop and the present-value formula\<close>

lemma periods_at_ge1: "1 \<le> periods_at p"
  by (simp add: periods_at_def)

lemma periods_eq: "periods yrs fq = max 1 (round (yrs * real fq))"
  by (simp add: periods_def periods_at_def)

lemma periods_ge1: "1 \<le> periods yrs fq"
  by (simp add: periods_eq)

lemma coupon_loop_sum:
  "1 \<le> t \<Longrightarrow> coupon_loop c r n t pv = pv + (\<Sum>k = nat t..nat n. c / (1 + r) ^ k)"
proof (induction c r n t pv rule: coupon_loop.induct)
  case (1 c r n t pv)
  show ?case
  proof (cases "t \<le> n")
    case True
    with "1.prems" have le: "nat t \<le> nat n" and suc: "nat (t + 1) = Suc (nat t)" by auto
    from True "1.prems" have "coupon_loop c r n t pv
        = pv + c / (1 + r) ^ nat t + (\<Sum>k = Suc (nat t)..nat n. c / (1 + r) ^ k)"
      using "1.IH" [OF True] by (subst coupon_loop.simps) (simp add: suc)
    also have "\<dots> = pv + (\<Sum>k = nat t..nat n. c / (1 + r) ^ k)"
      by (simp add: sum.atLeast_Suc_atMost [OF le])
    finally show ?thesis .
  next
    case False
    with "1.prems" have "nat n < nat t" by auto
    with False show ?thesis by (subst coupon_loop.simps) simp
  qed
qed

lemma priceBond_at_pv_flows:
  "priceBond_at p b = pv_flows (coupon (couponRate b) (face b) (freq b)) (face b)
                        (nat (periods_at p)) (ytm b / real (freq b))"
  by (simp add: priceBond_at_def pv_flows_def Let_def coupon_loop_sum)

lemma priceBond_pv_flows:
  "priceBond b = pv_flows (coupon (couponRate b) (face b) (freq b)) (face b)
                   (nat (periods (years b) (freq b))) (ytm b / real (freq b))"
  by (simp add: priceBond_def priceBond_at_pv_flows periods_def)

lemma pv_flows_Suc:
  "pv_flows c F (Suc m) r = (\<Sum>t = 1..m. c / (1 + r) ^ t) + (c + F) / (1 + r) ^ Suc m"
  by (simp add: pv_flows_def add_divide_distrib)

lemma pv_flows_par: "1 + r \<noteq> 0 \<Longrightarrow> pv_flows (F * r) F m r = F"
proof (induction m)
  case 0
  show ?case by (simp add: pv_flows_def)
next
  case (Suc m)
  have "F * r + F = F * (1 + r)" by (simp add: algebra_simps)
  then have "(F * r + F) / (1 + r) ^ Suc m = F / (1 + r) ^ m"
    using Suc.prems by simp
  with Suc show ?case by (simp add: pv_flows_Suc) (simp add: pv_flows_def)
qed

lemma pv_flows_strict_antimono:
  assumes "0 \<le> c" "0 < F" "0 < m" "0 < 1 + r1" "r1 < r2"
  shows "pv_flows c F m r2 < pv_flows c F m r1"
proof -
  have pw: "(1 + r1) ^ t \<le> (1 + r2) ^ t" for t
    using assms by (intro power_mono) auto
  have pos: "0 < (1 + r1) ^ t" for t using assms by simp
  have "(\<Sum>t = 1..m. c / (1 + r2) ^ t) \<le> (\<Sum>t = 1..m. c / (1 + r1) ^ t)"
    by (intro sum_mono divide_left_mono pw mult_pos_pos) (use assms in auto)
  moreover have "(1 + r1) ^ m < (1 + r2) ^ m"
    using assms by (intro power_strict_mono) auto
  then have "F / (1 + r2) ^ m < F / (1 + r1) ^ m"
    using assms pos [of m] by (intro divide_strict_left_mono mult_pos_pos) auto
  ultimately show ?thesis by (simp add: pv_flows_def)
qed

lemma pv_flows_antimono:
  assumes "0 \<le> c" "0 < F" "0 < m" "0 < 1 + r1" "r1 \<le> r2"
  shows "pv_flows c F m r2 \<le> pv_flows c F m r1"
proof (cases "r1 = r2")
  case True
  then show ?thesis by simp
next
  case False
  with assms have "r1 < r2" by simp
  with assms have "pv_flows c F m r2 < pv_flows c F m r1"
    by (intro pv_flows_strict_antimono)
  then show ?thesis by simp
qed

lemma periods_at_half_monthly: "periods_at (1/2 * 12) = 6"
  by (simp add: periods_at_def)

lemma nat_periods_pos: "0 < nat (periods yrs fq)"
  using periods_ge1 [of yrs fq] by simp

subsection \<open>The bisection loop\<close>

lemma call_pv_flows:
  "1 \<le> n \<Longrightarrow> coupon_loop c r n 1 0 + cp / (1 + r) ^ nat n = pv_flows c cp (nat n) r"
  by (simp add: coupon_loop_sum pv_flows_def)

lemma bisect_loop_funpow:
  "1 \<le> n \<Longrightarrow> iter \<le> 60 \<Longrightarrow>
     bisect_loop c cp n target lo hi iter
       = (bisect_step (pv_flows c cp (nat n)) target ^^ (60 - iter)) (lo, hi)"
proof (induction c cp n target lo hi iter rule: bisect_loop.induct)
  case (1 c cp n target lo hi iter)
  show ?case
  proof (cases "iter < 60")
    case True
    then have k: "60 - iter = Suc (60 - (iter + 1))" and le: "iter + 1 \<le> 60" by simp_all
    let ?mid = "(lo + hi) / 2"
    let ?f = "bisect_step (pv_flows c cp (nat n)) target"
    have step: "?f (lo, hi) = (if pv_flows c cp (nat n) ?mid > target then (?mid, hi) else (lo, ?mid))"
      by (simp add: bisect_step_def Let_def)
    show ?thesis
    proof (cases "pv_flows c cp (nat n) ?mid > target")
      case gt: True
      then have "bisect_loop c cp n target lo hi iter = bisect_loop c cp n target ?mid hi (iter + 1)"
        using True "1.prems"(1) by (subst bisect_loop.simps) (simp add: Let_def call_pv_flows)
      also have "\<dots> = (?f ^^ (60 - (iter + 1))) (?mid, hi)"
        using "1.IH"(1) [OF True refl refl refl refl _ "1.prems"(1) le] gt "1.prems"(1)
        by (simp add: call_pv_flows)
      finally show ?thesis
        unfolding k funpow_Suc_right using gt by (simp add: step)
    next
      case ngt: False
      then have "bisect_loop c cp n target lo hi iter = bisect_loop c cp n target lo ?mid (iter + 1)"
        using True "1.prems"(1) by (subst bisect_loop.simps) (simp add: Let_def call_pv_flows)
      also have "\<dots> = (?f ^^ (60 - (iter + 1))) (lo, ?mid)"
        using "1.IH"(2) [OF True refl refl refl refl _ "1.prems"(1) le] ngt "1.prems"(1)
        by (simp add: call_pv_flows)
      finally show ?thesis
        unfolding k funpow_Suc_right using ngt by (simp add: step)
    qed
  next
    case False
    with "1.prems" have "iter = 60" by simp
    then show ?thesis by (subst bisect_loop.simps) simp
  qed
qed

lemma priceBond_fields:
  "priceBond \<lparr>face = face b, couponRate = couponRate b, ytm = ytm b, years = years b,
              freq = freq b\<rparr> = priceBond b"
  by (simp add: priceBond_pv_flows)

lemma yieldToWorstApprox_callable:
  "callable b \<Longrightarrow> yieldToWorstApprox b = min (ytm b) (yield_to_call b)"
  using periods_ge1 [of "callYears b" "freq b"]
  by (simp add: yieldToWorstApprox_def yield_to_call_def call_rate_def call_flows_def Let_def
                bisect_loop_funpow priceBond_fields coupon_def periods_eq [symmetric]
           split: prod.splits)

subsection \<open>The sampling loop\<close>

lemma points_loop_map:
  "points_loop fc cr ym yrs fq cl bps pts
     = pts @ map (\<lambda>k. grid_point fc cr ym yrs fq cl (bps + 10 * int k))
               [0..<nat ((210 - bps) div 10)]"
proof (induction fc cr ym yrs fq cl bps pts rule: points_loop.induct)
  case (1 fc cr ym yrs fq cl bps pts)
  show ?case
  proof (cases "bps \<le> 200")
    case True
    define m where "m = nat ((210 - (bps + 10)) div 10)"
    from True have cnt: "nat ((210 - bps) div 10) = Suc m"
      unfolding m_def by linarith
    have shift: "bps + 10 * int (Suc k) = bps + 10 + 10 * int k" for k by simp
    have "points_loop fc cr ym yrs fq cl bps pts
            = points_loop fc cr ym yrs fq cl (bps + 10) (pts @ [grid_point fc cr ym yrs fq cl bps])"
      using True by (subst points_loop.simps) simp
    also have "\<dots> = (pts @ [grid_point fc cr ym yrs fq cl bps])
                     @ map (\<lambda>k. grid_point fc cr ym yrs fq cl (bps + 10 + 10 * int k)) [0..<m]"
      unfolding m_def by (rule "1.IH" [OF True])
    also have "\<dots> = pts @ map (\<lambda>k. grid_point fc cr ym yrs fq cl (bps + 10 * int k)) [0..<Suc m]"
      unfolding upt_conv_Cons [OF zero_less_Suc] map_Suc_upt [symmetric]
      by (simp add: comp_def add.assoc del: upt_Suc)
    finally show ?thesis by (simp only: cnt)
  next
    case False
    then have "nat ((210 - bps) div 10) = 0" by simp
    with False show ?thesis by (subst points_loop.simps) simp
  qed
qed

lemma computed_points:
  "points (computed s)
     = map (\<lambda>k. grid_point (ui_face s) (ui_couponPct s / 100) (ui_ytmPct s / 100) (ui_years s)
                   (ui_freq s) (ui_callable s) (- 200 + 10 * int k)) [0..<41]"
  by (simp add: computed_def Let_def points_loop_map del: upt_Suc)

lemma computed_points_length: "length (points (computed s)) = 41"
  by (simp add: computed_points del: upt_Suc)

lemma computed_points_nth:
  "i < 41 \<Longrightarrow> points (computed s) ! i
     = grid_point (ui_face s) (ui_couponPct s / 100) (ui_ytmPct s / 100) (ui_years s)
         (ui_freq s) (ui_callable s) (- 200 + 10 * int i)"
  by (simp add: computed_points del: upt_Suc)

lemma yld_grid_point: "yld (grid_point fc cr ym yrs fq cl bps) = grid_yield ym bps * 100"
  by (simp add: grid_point_def Let_def)

lemma Price_grid_point:
  "Price (grid_point fc cr ym yrs fq cl bps)
     = priceBond \<lparr>face = fc, couponRate = cr, ytm = grid_yield ym bps, years = yrs, freq = fq\<rparr>"
  by (simp add: grid_point_def Let_def)

lemma PriceCallable_grid_point:
  "PriceCallable (grid_point fc cr ym yrs fq cl bps)
     = (if cl then priceBond \<lparr>face = fc, couponRate = cr,
                               ytm = grid_ytw fc cr (grid_yield ym bps) yrs fq cl,
                               years = yrs, freq = fq\<rparr>
        else Price (grid_point fc cr ym yrs fq cl bps))"
  by (simp add: grid_point_def Let_def)

subsection \<open>Durations\<close>

lemma duration_loop_nonneg:
  "0 \<le> c \<Longrightarrow> 0 \<le> fc \<Longrightarrow> 0 < 1 + r \<Longrightarrow> 0 \<le> t \<Longrightarrow> 0 \<le> num \<Longrightarrow>
     0 \<le> duration_loop c fc r fq n t num"
proof (induction c fc r fq n t num rule: duration_loop.induct)
  case (1 c fc r fq n t num)
  show ?case
  proof (cases "t \<le> n")
    case True
    let ?cf = "if t = n then c + fc else c"
    let ?num = "num + (real_of_int t / real fq * ?cf) / (1 + r) ^ nat t"
    from "1.prems" have "0 \<le> (real_of_int t / real fq * ?cf) / (1 + r) ^ nat t"
      by (intro divide_nonneg_pos mult_nonneg_nonneg divide_nonneg_nonneg) auto
    with "1.prems" have "0 \<le> ?num" by simp
    then have "0 \<le> duration_loop c fc r fq n (t + 1) ?num"
      using "1.prems" by (intro "1.IH" [OF True refl refl]) auto
    then show ?thesis using True by (subst duration_loop.simps) (simp add: Let_def)
  next
    case False
    with "1.prems" show ?thesis by (subst duration_loop.simps) simp
  qed
qed

lemma pv_flows_pos:
  assumes "0 \<le> c" "0 < F" "0 < 1 + r"
  shows "0 < pv_flows c F m r"
proof -
  have "0 \<le> (\<Sum>t = 1..m. c / (1 + r) ^ t)"
    using assms by (intro sum_nonneg divide_nonneg_pos) auto
  moreover have "0 < F / (1 + r) ^ m" using assms by simp
  ultimately show ?thesis by (simp add: pv_flows_def)
qed

lemma macaulayDuration_nonneg:
  assumes "0 \<le> ytm b" "0 \<le> couponRate b" "0 < face b" "1 \<le> freq b"
  shows "0 \<le> macaulayDuration b"
proof -
  let ?c = "coupon (couponRate b) (face b) (freq b)"
  let ?r = "ytm b / real (freq b)"
  from assms have c: "0 \<le> ?c" by (simp add: coupon_def)
  from assms have r: "0 < 1 + ?r" by (simp add: add_pos_nonneg)
  have "0 \<le> duration_loop ?c (face b) ?r (freq b) (periods (years b) (freq b)) 1 0"
    using c r assms by (intro duration_loop_nonneg) auto
  moreover have "0 < priceBond b"
    using c r assms by (simp add: priceBond_pv_flows pv_flows_pos)
  ultimately show ?thesis
    by (simp add: macaulayDuration_def Let_def priceBond_fields)
qed

subsection \<open>What the bisection leaves behind\<close>

lemma bisect_step_cases:
  "bisect_step pv target (lo, hi)
     = (if pv ((lo + hi) / 2) > target then ((lo + hi) / 2, hi) else (lo, (lo + hi) / 2))"
  by (simp add: bisect_step_def Let_def)

lemma bisect_funpow_invariant:
  assumes "I lo hi"
    and up: "\<And>lo hi. I lo hi \<Longrightarrow> pv ((lo + hi) / 2) > target \<Longrightarrow> I ((lo + hi) / 2) hi"
    and down: "\<And>lo hi. I lo hi \<Longrightarrow> \<not> pv ((lo + hi) / 2) > target \<Longrightarrow> I lo ((lo + hi) / 2)"
  shows "case (bisect_step pv target ^^ k) (lo, hi) of (lo', hi') \<Rightarrow> I lo' hi'"
proof (induction k)
  case 0
  from assms(1) show ?case by simp
next
  case (Suc k)
  obtain lo1 hi1 where p: "(bisect_step pv target ^^ k) (lo, hi) = (lo1, hi1)"
    by (cases "(bisect_step pv target ^^ k) (lo, hi)")
  with Suc have "I lo1 hi1" by simp
  then show ?case
    using up [of lo1 hi1] down [of lo1 hi1] by (simp add: p bisect_step_cases)
qed

lemma bisect_funpow_width:
  "case (bisect_step pv target ^^ k) (lo, hi) of (lo', hi') \<Rightarrow> (hi' - lo') * 2 ^ k = hi - lo"
proof (induction k)
  case 0
  show ?case by simp
next
  case (Suc k)
  obtain lo1 hi1 where p: "(bisect_step pv target ^^ k) (lo, hi) = (lo1, hi1)"
    by (cases "(bisect_step pv target ^^ k) (lo, hi)")
  with Suc have w: "(hi1 - lo1) * 2 ^ k = hi - lo" by simp
  have "(hi1 - (lo1 + hi1) / 2) * 2 ^ Suc k = (hi1 - lo1) * 2 ^ k"
    and "((lo1 + hi1) / 2 - lo1) * 2 ^ Suc k = (hi1 - lo1) * 2 ^ k"
    by (simp_all add: field_simps)
  with w have "(hi1 - (lo1 + hi1) / 2) * 2 ^ Suc k = hi - lo"
    and "((lo1 + hi1) / 2 - lo1) * 2 ^ Suc k = hi - lo"
    by simp_all
  then show ?case by (simp add: p bisect_step_cases)
qed

lemma bisect_sixty_midpoint:
  assumes "(bisect_step pv target ^^ 60) (- 0.99, 1.0) = (lo, hi)"
  shows "(lo + hi) / 2 = lo + 1.99 / 2 ^ 61" and "(lo + hi) / 2 = hi - 1.99 / 2 ^ 61"
proof -
  have "(hi - lo) * 2 ^ 60 = 1.0 - (- 0.99)"
    using bisect_funpow_width [where pv = pv and target = target and k = 60
                                 and lo = "- 0.99" and hi = "1.0"] assms
    by simp
  then have "hi - lo = 1.99 / 2 ^ 60" by (simp add: field_simps)
  then show "(lo + hi) / 2 = lo + 1.99 / 2 ^ 61" and "(lo + hi) / 2 = hi - 1.99 / 2 ^ 61"
    by (simp_all add: field_simps)
qed

text \<open>If the flows are worth no more than the target from \<open>r0\<close> on, the search ends
  at most half a final interval above \<open>r0\<close>.\<close>

lemma call_rate_upper:
  assumes le: "\<And>r. r0 \<le> r \<Longrightarrow> call_flows b r \<le> priceBond b" and r0: "- 0.99 \<le> r0"
  shows "call_rate b \<le> r0 + 1.99 / 2 ^ 61"
proof -
  obtain lo hi where p: "(bisect_step (call_flows b) (priceBond b) ^^ 60) (- 0.99, 1.0) = (lo, hi)"
    by (cases "(bisect_step (call_flows b) (priceBond b) ^^ 60) (- 0.99, 1.0)")
  have "case (bisect_step (call_flows b) (priceBond b) ^^ 60) (- 0.99, 1.0) of
          (lo', hi') \<Rightarrow> lo' \<le> r0"
  proof (rule bisect_funpow_invariant [where I = "\<lambda>lo hi. lo \<le> r0"])
    show "- 0.99 \<le> r0" by (rule r0)
  next
    fix lo hi :: real
    assume "priceBond b < call_flows b ((lo + hi) / 2)"
    with le [of "(lo + hi) / 2"] show "(lo + hi) / 2 \<le> r0" by force
  qed
  with p have lo: "lo \<le> r0" by simp
  have "(lo + hi) / 2 = lo + 1.99 / 2 ^ 61" by (rule bisect_sixty_midpoint [OF p])
  moreover have "call_rate b = (lo + hi) / 2" unfolding call_rate_def p by simp
  ultimately show ?thesis using lo by simp
qed

text \<open>If the flows are worth more than the target everywhere below \<open>r0\<close>, the search
  ends at most half a final interval below \<open>r0\<close>.\<close>

lemma call_rate_lower:
  assumes gt: "\<And>r. - 0.99 \<le> r \<Longrightarrow> r < r0 \<Longrightarrow> priceBond b < call_flows b r" and r0: "r0 \<le> 1"
  shows "r0 - 1.99 / 2 ^ 61 \<le> call_rate b"
proof -
  obtain lo hi where p: "(bisect_step (call_flows b) (priceBond b) ^^ 60) (- 0.99, 1.0) = (lo, hi)"
    by (cases "(bisect_step (call_flows b) (priceBond b) ^^ 60) (- 0.99, 1.0)")
  have "case (bisect_step (call_flows b) (priceBond b) ^^ 60) (- 0.99, 1.0) of
          (lo', hi') \<Rightarrow> - 0.99 \<le> lo' \<and> lo' \<le> hi' \<and> r0 \<le> hi'"
  proof (rule bisect_funpow_invariant [where I = "\<lambda>lo hi. - 0.99 \<le> lo \<and> lo \<le> hi \<and> r0 \<le> hi"])
    show "- 0.99 \<le> (- 0.99 :: real) \<and> - 0.99 \<le> (1.0 :: real) \<and> r0 \<le> 1.0"
      using r0 by simp
  next
    fix lo hi :: real
    assume "- 0.99 \<le> lo \<and> lo \<le> hi \<and> r0 \<le> hi"
    then show "- 0.99 \<le> (lo + hi) / 2 \<and> (lo + hi) / 2 \<le> hi \<and> r0 \<le> hi" by simp
  next
    fix lo hi :: real
    assume I: "- 0.99 \<le> lo \<and> lo \<le> hi \<and> r0 \<le> hi"
      and n: "\<not> priceBond b < call_flows b ((lo + hi) / 2)"
    from I have "- 0.99 \<le> (lo + hi) / 2" by simp
    with gt [of "(lo + hi) / 2"] n have "r0 \<le> (lo + hi) / 2" by force
    with I show "- 0.99 \<le> lo \<and> lo \<le> (lo + hi) / 2 \<and> r0 \<le> (lo + hi) / 2" by simp
  qed
  with p have hi: "r0 \<le> hi" by simp
  have "(lo + hi) / 2 = hi - 1.99 / 2 ^ 61" by (rule bisect_sixty_midpoint [OF p])
  moreover have "call_rate b = (lo + hi) / 2" unfolding call_rate_def p by simp
  ultimately show ?thesis using hi by simp
qed

lemma pv_flows_premium_mono:
  assumes "F * r \<le> c" "0 < 1 + r" "m \<le> n"
  shows "pv_flows c F m r \<le> pv_flows c F n r"
  using assms(3)
proof (induction n rule: dec_induct)
  case base
  show ?case by simp
next
  case (step k)
  define S where "S = (\<Sum>t = 1..k. c / (1 + r) ^ t)"
  define D where "D = (1 + r) ^ Suc k"
  have D: "0 < D" unfolding D_def using assms(2) by simp
  have "F / (1 + r) ^ k = (F * (1 + r)) / D"
    unfolding D_def using assms(2) by simp
  then have lower: "pv_flows c F k r = S + (F * (1 + r)) / D"
    by (simp add: pv_flows_def S_def)
  have upper: "pv_flows c F (Suc k) r = S + (c + F) / D"
    unfolding S_def D_def by (rule pv_flows_Suc)
  from assms(1) have "F * (1 + r) \<le> c + F" by (simp add: algebra_simps)
  with D have "(F * (1 + r)) / D \<le> (c + F) / D"
    by (intro divide_right_mono) auto
  then have "pv_flows c F k r \<le> pv_flows c F (Suc k) r"
    unfolding lower upper by simp
  with step.IH show ?case by simp
qed

lemma call_periods_le:
  "callYears b \<le> years b \<Longrightarrow>
     nat (max 1 (round (callYears b * real (freq b)))) \<le> nat (periods (years b) (freq b))"
proof -
  assume "callYears b \<le> years b"
  then have "callYears b * real (freq b) \<le> years b * real (freq b)"
    by (intro mult_right_mono) auto
  then have "round (callYears b * real (freq b)) \<le> round (years b * real (freq b))"
    by (rule round_mono)
  then show ?thesis by (simp add: periods_eq)
qed

lemma call_flows_antimono:
  assumes "0 \<le> couponRate b * face b / real (freq b)" "0 < callPrice b" "0 < 1 + r1" "r1 \<le> r2"
  shows "call_flows b r2 \<le> call_flows b r1"
  unfolding call_flows_def using assms by (intro pv_flows_antimono) auto

lemma call_rate_ge: "- 0.99 \<le> call_rate b"
proof -
  obtain lo hi where p: "(bisect_step (call_flows b) (priceBond b) ^^ 60) (- 0.99, 1.0) = (lo, hi)"
    by (cases "(bisect_step (call_flows b) (priceBond b) ^^ 60) (- 0.99, 1.0)")
  have "case (bisect_step (call_flows b) (priceBond b) ^^ 60) (- 0.99, 1.0) of
          (lo', hi') \<Rightarrow> - 0.99 \<le> lo' \<and> lo' \<le> hi'"
    by (rule bisect_funpow_invariant [where I = "\<lambda>lo hi. - 0.99 \<le> lo \<and> lo \<le> hi"]) auto
  with p have "- 0.99 \<le> lo" "lo \<le> hi" by simp_all
  moreover have "call_rate b = (lo + hi) / 2" unfolding call_rate_def p by simp
  ultimately show ?thesis by simp
qed

lemma call_rate_premium:
  assumes "callPrice b = face b" "0 < face b" "1 \<le> freq b" "callYears b \<le> years b"
    and "0 \<le> ytm b" "ytm b \<le> couponRate b"
  shows "call_rate b \<le> ytm b / real (freq b) + 1.99 / 2 ^ 61"
proof (rule call_rate_upper)
  let ?c = "couponRate b * face b / real (freq b)"
  let ?r1 = "ytm b / real (freq b)"
  let ?m = "nat (max 1 (round (callYears b * real (freq b))))"
  from assms have r1: "0 \<le> ?r1" by simp
  then have r1': "0 < 1 + ?r1" by simp
  from r1 show "- 0.99 \<le> ?r1" by simp
  fix r :: real
  assume r: "?r1 \<le> r"
  from assms have c: "0 \<le> ?c" by simp
  from assms have "face b * ytm b \<le> face b * couponRate b"
    by (intro mult_left_mono) auto
  then have "face b * ytm b / real (freq b) \<le> face b * couponRate b / real (freq b)"
    by (rule divide_right_mono) simp
  then have prem: "face b * ?r1 \<le> ?c" by (simp add: mult.commute)
  have "call_flows b r \<le> call_flows b ?r1"
    using c assms r1' r by (intro call_flows_antimono) auto
  also have "\<dots> = pv_flows ?c (face b) ?m ?r1"
    using assms(1) by (simp add: call_flows_def)
  also have "\<dots> \<le> pv_flows ?c (face b) (nat (periods (years b) (freq b))) ?r1"
    using prem r1' assms(4) by (intro pv_flows_premium_mono call_periods_le) auto
  also have "\<dots> = priceBond b"
    by (simp add: priceBond_pv_flows coupon_def)
  finally show "call_flows b r \<le> priceBond b" .
qed

lemma yieldToWorst_strict_criterion:
  assumes "callable b" "0 \<le> couponRate b * face b / real (freq b)" "0 < callPrice b"
    and "- 0.99 < ytm b" "- 0.99 \<le> r0" "call_flows b r0 \<le> priceBond b"
    and "(1 + r0 + 1.99 / 2 ^ 61) ^ freq b < 1 + ytm b"
  shows "yieldToWorstApprox b < ytm b"
proof -
  have "call_rate b \<le> r0 + 1.99 / 2 ^ 61"
  proof (rule call_rate_upper)
    fix r :: real
    assume "r0 \<le> r"
    then have "call_flows b r \<le> call_flows b r0"
      using assms by (intro call_flows_antimono) auto
    with assms(6) show "call_flows b r \<le> priceBond b" by simp
  qed (rule assms(5))
  moreover have "0 \<le> 1 + call_rate b" using call_rate_ge [of b] by simp
  ultimately have "(1 + call_rate b) ^ freq b \<le> (1 + r0 + 1.99 / 2 ^ 61) ^ freq b"
    by (intro power_mono) auto
  with assms(7) have "(1 + call_rate b) ^ freq b - 1 < ytm b" by simp
  with assms(4) have "yield_to_call b < ytm b" by (simp add: yield_to_call_def)
  with assms(1) show ?thesis by (simp add: yieldToWorstApprox_callable)
qed

lemma yield_to_call_floor: "- 0.99 \<le> yield_to_call b"
  by (simp add: yield_to_call_def)

subsection \<open>The sampled yields\<close>

lemma grid_offsets_nth: "i < 41 \<Longrightarrow> grid_offsets ! i = - 200 + 10 * int i"
  by (simp add: grid_offsets_def del: upt_Suc)

lemma sampled_yields_length: "length (sampled_yields s) = 41"
  by (simp add: sampled_yields_def computed_points_length)

lemma sampled_yields_nth:
  "i < 41 \<Longrightarrow> sampled_yields s ! i = grid_yield (ui_ytmPct s / 100) (- 200 + 10 * int i)"
  by (simp add: sampled_yields_def computed_points_length computed_points_nth yld_grid_point)

lemma grid_yield_floor: "0.0001 \<le> grid_yield ym bps"
  by (simp add: grid_yield_def)

lemma grid_yield_mono: "b1 \<le> b2 \<Longrightarrow> grid_yield ym b1 \<le> grid_yield ym b2"
  by (simp add: grid_yield_def max_def divide_right_mono)

lemma grid_yield_unclamped:
  "0.0201 \<le> ym \<Longrightarrow> - 200 \<le> bps \<Longrightarrow> grid_yield ym bps = ym + real_of_int bps / 10000"
proof -
  assume a: "0.0201 \<le> ym" "- 200 \<le> bps"
  then have "real_of_int (- 200) \<le> real_of_int bps" by (simp only: of_int_le_iff)
  then have "- 200 / 10000 \<le> real_of_int bps / 10000" by simp
  with a show ?thesis by (simp add: grid_yield_def max_def)
qed

lemma grid_ytw_bounds:
  "cl \<Longrightarrow> - 0.99 < y \<Longrightarrow> - 0.99 \<le> grid_ytw fc cr y yrs fq cl \<and> grid_ytw fc cr y yrs fq cl \<le> y"
  using yield_to_call_floor
          [of "\<lparr>face = fc, couponRate = cr, ytm = y, years = yrs, freq = fq, callable = cl,
                callYears = min yrs (real_of_int (max 2 (round (yrs / 2)))), callPrice = fc\<rparr>"]
  by (simp add: grid_ytw_def yieldToWorstApprox_callable)

section \<open>The claims\<close>

subsection \<open>Pricing\<close>

text \<open>
  Claim C1. With \<open>freq \<ge> 1\<close> and \<open>1 + ytm / freq \<noteq> 0\<close>, \<open>priceBond\<close> returns the sum
  over \<open>t = 1..n\<close> of \<open>(couponRate * face / freq) / (1 + ytm / freq) ^ t\<close> plus
  \<open>face / (1 + ytm / freq) ^ n\<close>, where \<open>n = max 1 (round p)\<close> and \<open>p\<close> is the product
  \<open>years * freq\<close> as the code computes it; \<open>priceBond\<close> is the case of the exact product.
  Half a year of monthly payments (\<open>0.5 * 12\<close> is exact) is six periods, and a product
  that rounds to zero gives one period.
\<close>

theorem priceBond_formula:
  assumes "1 \<le> freq b" and "1 + ytm b / real (freq b) \<noteq> 0"
  shows "priceBond_at p b =
           (\<Sum>t = 1..nat (periods_at p).
               (couponRate b * face b / real (freq b)) / (1 + ytm b / real (freq b)) ^ t)
           + face b / (1 + ytm b / real (freq b)) ^ nat (periods_at p)
         \<and> periods_at p = max 1 (round p)
         \<and> priceBond b = priceBond_at (years b * real (freq b)) b
         \<and> periods_at (1/2 * 12) = 6
         \<and> (round p = 0 \<longrightarrow> periods_at p = 1)"
  by (simp add: priceBond_at_pv_flows pv_flows_def coupon_def periods_at_half_monthly
                priceBond_def)
     (simp add: periods_at_def)

text \<open>
  The formula for a bond above par (6% coupon at a 3% yield), where the number of
  periods shows in the price: at half a year of monthly payments (six periods), at the
  product \<open>5.5\<close> that the code computes for \<open>0.4583333333333333\<close> years of monthly
  payments (six periods again), and at a hundredth of a year (\<open>0.12\<close> rounds to zero: one
  period).
\<close>

theorem priceBond_formula_witness:
  "priceBond \<lparr>face = 1000, couponRate = 0.06, ytm = 0.03, years = 1/2, freq = 12\<rparr>
     = (\<Sum>t = 1..6. (0.06 * 1000 / 12) / (1 + 0.03 / 12) ^ t) + 1000 / (1 + 0.03 / 12) ^ 6
   \<and> priceBond_at 5.5
       \<lparr>face = 1000, couponRate = 0.06, ytm = 0.03, years = 0.4583333333333333, freq = 12\<rparr>
     = (\<Sum>t = 1..6. (0.06 * 1000 / 12) / (1 + 0.03 / 12) ^ t) + 1000 / (1 + 0.03 / 12) ^ 6
   \<and> priceBond \<lparr>face = 1000, couponRate = 0.06, ytm = 0.03, years = 1/100, freq = 12\<rparr>
     = (0.06 * 1000 / 12) / (1 + 0.03 / 12) + 1000 / (1 + 0.03 / 12)"
proof -
  have r0: "round (1 / 100 * (12::real)) = 0"
    by (simp add: round_def floor_eq_iff)
  have r6: "round (11 / 2 :: real) = 6"
    by (simp add: round_def)
  show ?thesis
    using priceBond_formula
            [of "\<lparr>face = 1000, couponRate = 0.06, ytm = 0.03, years = 1/2, freq = 12\<rparr>"
                "1/2 * 12"]
          priceBond_formula
            [of "\<lparr>face = 1000, couponRate = 0.06, ytm = 0.03,
                  years = 0.4583333333333333, freq = 12\<rparr>" "5.5"]
          priceBond_formula
            [of "\<lparr>face = 1000, couponRate = 0.06, ytm = 0.03, years = 1/100, freq = 12\<rparr>"
                "1/100 * 12"]
          r0 r6
    by simp
qed

text \<open>
  Claim C5. For \<open>face > 0\<close>, \<open>couponRate \<ge> 0\<close>, \<open>years > 0\<close> and \<open>freq \<ge> 1\<close>, the price
  is strictly decreasing in the yield on \<open>ytm \<ge> 0\<close>; the ten-year semiannual 5% bond of
  face 1000 is below 1000 at a yield of 6% and above 1000 at a yield of 4%.
\<close>

theorem priceBond_strictly_decreasing:
  "(0 < face b \<and> 0 \<le> couponRate b \<and> 0 < years b \<and> 1 \<le> freq b \<and> 0 \<le> y1 \<and> y1 < y2
      \<longrightarrow> priceBond (b\<lparr>ytm := y2\<rparr>) < priceBond (b\<lparr>ytm := y1\<rparr>))
   \<and> priceBond \<lparr>face = 1000, couponRate = 0.05, ytm = 0.06, years = 10, freq = 2\<rparr> < 1000
   \<and> 1000 < priceBond \<lparr>face = 1000, couponRate = 0.05, ytm = 0.04, years = 10, freq = 2\<rparr>"
proof -
  have gen: "priceBond (b\<lparr>ytm := y2\<rparr>) < priceBond (b\<lparr>ytm := y1\<rparr>)"
    if "0 < face b" "0 \<le> couponRate b" "1 \<le> freq b" "0 \<le> y1" "y1 < y2"
    for b :: "'b BaseArgs_scheme" and y1 y2
  proof -
    from that have "0 \<le> coupon (couponRate b) (face b) (freq b)"
      by (simp add: coupon_def)
    moreover from that have "0 < 1 + y1 / real (freq b)"
      by (simp add: add_pos_nonneg)
    moreover from that have "y1 / real (freq b) < y2 / real (freq b)"
      by (simp add: divide_strict_right_mono)
    ultimately show ?thesis
      using that nat_periods_pos [of "years b" "freq b"]
      by (simp add: priceBond_pv_flows pv_flows_strict_antimono)
  qed
  let ?b = "\<lparr>face = 1000, couponRate = 0.05, ytm = 0.05, years = 10, freq = 2\<rparr>"
  have par: "priceBond ?b = 1000"
    using pv_flows_par [of "0.05 / 2" 1000 "nat (periods 10 2)"]
    by (simp add: priceBond_pv_flows coupon_def)
  have "priceBond (?b\<lparr>ytm := 0.06\<rparr>) < priceBond (?b\<lparr>ytm := 0.05\<rparr>)"
    by (rule gen) simp_all
  moreover have "priceBond (?b\<lparr>ytm := 0.05\<rparr>) < priceBond (?b\<lparr>ytm := 0.04\<rparr>)"
    by (rule gen) simp_all
  ultimately show ?thesis using gen [of b y1 y2] par by simp
qed

theorem priceBond_strictly_decreasing_witness:
  "priceBond \<lparr>face = 1000, couponRate = 0.05, ytm = 0.07, years = 10, freq = 2\<rparr>
     < priceBond \<lparr>face = 1000, couponRate = 0.05, ytm = 0.03, years = 10, freq = 2\<rparr>"
  using priceBond_strictly_decreasing
          [of "\<lparr>face = 1000, couponRate = 0.05, ytm = 0.05, years = 10, freq = 2\<rparr>"
              "0.03" "0.07"]
  by simp

text \<open>
  Claim C6. For \<open>face > 0\<close>, \<open>freq \<ge> 1\<close>, \<open>years > 0\<close> and \<open>couponRate = ytm \<ge> 0\<close>, the
  price is exactly the face value; the ten-year semiannual 5% bond of face 1000 at a
  yield of 5% is priced at 1000.
\<close>

theorem priceBond_par:
  "(0 < face b \<and> 1 \<le> freq b \<and> 0 < years b \<and> couponRate b = ytm b \<and> 0 \<le> ytm b
      \<longrightarrow> priceBond b = face b)
   \<and> priceBond \<lparr>face = 1000, couponRate = 0.05, ytm = 0.05, years = 10, freq = 2\<rparr> = 1000"
proof -
  have gen: "priceBond b = face b"
    if "1 \<le> freq b" "couponRate b = ytm b" "0 \<le> ytm b" for b :: "'b BaseArgs_scheme"
  proof -
    from that have "1 + ytm b / real (freq b) \<noteq> 0"
      by (simp add: add_nonneg_eq_0_iff)
    then show ?thesis
      using that pv_flows_par [of "ytm b / real (freq b)" "face b"]
      by (simp add: priceBond_pv_flows coupon_def mult.commute)
  qed
  have "priceBond \<lparr>face = 1000, couponRate = 0.05, ytm = 0.05, years = 10, freq = 2\<rparr> = 1000"
    using gen [of "\<lparr>face = 1000, couponRate = 0.05, ytm = 0.05, years = 10, freq = 2\<rparr>"]
    by simp
  then show ?thesis using gen [of b] by simp
qed

theorem priceBond_par_witness:
  "priceBond \<lparr>face = 500, couponRate = 0.03, ytm = 0.03, years = 7, freq = 4\<rparr> = 500"
  using priceBond_par
          [of "\<lparr>face = 500, couponRate = 0.03, ytm = 0.03, years = 7, freq = 4\<rparr>"]
  by simp

subsection \<open>Durations\<close>

text \<open>
  Claim C7. For every argument object, \<open>modifiedDuration\<close> returns \<open>macaulayDuration\<close>
  divided by \<open>1 + ytm / freq\<close>. For the bond terms of the data model (a positive face
  value, a coupon rate that is not negative, at least one payment a year), the modified
  duration is less than or equal to the Macaulay duration whenever \<open>ytm \<ge> 0\<close>.
\<close>

theorem modifiedDuration_le_macaulay:
  "modifiedDuration b = macaulayDuration b / (1 + ytm b / real (freq b))
   \<and> (0 \<le> ytm b \<and> 0 \<le> couponRate b \<and> 0 < face b \<and> 1 \<le> freq b
        \<longrightarrow> modifiedDuration b \<le> macaulayDuration b)"
proof -
  have eq: "modifiedDuration b = macaulayDuration b / (1 + ytm b / real (freq b))"
    by (simp add: modifiedDuration_def Let_def)
  have "modifiedDuration b \<le> macaulayDuration b"
    if h: "0 \<le> ytm b" "0 \<le> couponRate b" "0 < face b" "1 \<le> freq b"
  proof -
    from h have "1 \<le> 1 + ytm b / real (freq b)" by simp
    moreover have "0 \<le> macaulayDuration b" using h by (rule macaulayDuration_nonneg)
    ultimately have "macaulayDuration b / (1 + ytm b / real (freq b)) \<le> macaulayDuration b / 1"
      by (intro divide_left_mono) auto
    then show ?thesis by (simp add: eq)
  qed
  with eq show ?thesis by blast
qed

theorem modifiedDuration_le_macaulay_witness:
  "modifiedDuration \<lparr>face = 1000, couponRate = 0.05, ytm = 0.05, years = 10, freq = 2\<rparr>
     \<le> macaulayDuration \<lparr>face = 1000, couponRate = 0.05, ytm = 0.05, years = 10, freq = 2\<rparr>"
  using modifiedDuration_le_macaulay
          [of "\<lparr>face = 1000, couponRate = 0.05, ytm = 0.05, years = 10, freq = 2\<rparr>"]
  by simp

subsection \<open>Yield to worst\<close>

text \<open>
  Claim C2. With \<open>callable = false\<close> the routine returns \<open>ytm\<close> unchanged, whatever the
  other fields are. With \<open>callable = true\<close> it returns the smaller of \<open>ytm\<close> and the
  yield to call of the specification (\<open>yield_to_call\<close>): sixty bisection steps from
  \<open>-0.99\<close> and \<open>1.0\<close> on the present value of the coupons to the call date plus the
  discounted call price, against the price over the full maturity.
\<close>

theorem yieldToWorstApprox_refines:
  "(\<not> callable b \<longrightarrow> yieldToWorstApprox b = ytm b)
   \<and> (callable b \<longrightarrow> yieldToWorstApprox b = min (ytm b) (yield_to_call b))"
  by (simp add: yieldToWorstApprox_callable) (simp add: yieldToWorstApprox_def)

theorem yieldToWorstApprox_refines_witness:
  "yieldToWorstApprox \<lparr>face = 1000, couponRate = 0.05, ytm = 0.04, years = 10, freq = 2,
                        callable = False, callYears = 5, callPrice = 1000\<rparr> = 0.04
   \<and> yieldToWorstApprox \<lparr>face = 1000, couponRate = 0.05, ytm = 0.04, years = 10, freq = 2,
                          callable = True, callYears = 5, callPrice = 1000\<rparr>
       = min 0.04 (yield_to_call \<lparr>face = 1000, couponRate = 0.05, ytm = 0.04, years = 10,
                                   freq = 2, callable = True, callYears = 5, callPrice = 1000\<rparr>)"
  using yieldToWorstApprox_refines
          [of "\<lparr>face = 1000, couponRate = 0.05, ytm = 0.04, years = 10, freq = 2,
                callable = False, callYears = 5, callPrice = 1000\<rparr>"]
        yieldToWorstApprox_refines
          [of "\<lparr>face = 1000, couponRate = 0.05, ytm = 0.04, years = 10, freq = 2,
                callable = True, callYears = 5, callPrice = 1000\<rparr>"]
  by simp

text \<open>
  Claim C8, as the specification words it, asks for a result strictly below \<open>ytm\<close>
  whenever the bond is callable at face value and priced above par. A semiannual bond
  of face 1000 with a 5% coupon at a yield of 2%, half a year to maturity and a call date
  at maturity, has one period both to maturity and to call: the search closes in on the
  per-period rate \<open>0.01\<close>, whose annualised value \<open>1.01\<^sup>2 - 1\<close> is above the nominal
  \<open>0.02\<close>, and the routine returns \<open>ytm\<close> itself.
\<close>

theorem yieldToWorst_not_strict_counterexample:
  "\<not> yieldToWorstApprox \<lparr>face = 1000, couponRate = 0.05, ytm = 0.02, years = 1/2, freq = 2,
                          callable = True, callYears = 1/2, callPrice = 1000\<rparr>
       < ytm \<lparr>face = 1000, couponRate = 0.05, ytm = 0.02, years = 1/2, freq = 2,
              callable = True, callYears = 1/2, callPrice = 1000\<rparr>"
proof -
  let ?b = "\<lparr>face = 1000, couponRate = 0.05, ytm = 0.02, years = 1/2, freq = 2,
             callable = True, callYears = 1/2, callPrice = 1000\<rparr>"
  have cf: "call_flows ?b = pv_flows 25 1000 1"
    by (simp add: call_flows_def)
  have pb: "priceBond ?b = pv_flows 25 1000 1 (1 / 100)"
    by (simp add: priceBond_pv_flows coupon_def periods_eq)
  have "1 / 100 - 1.99 / 2 ^ 61 \<le> call_rate ?b"
  proof (rule call_rate_lower)
    fix r :: real
    assume "- 0.99 \<le> r" and "r < 1 / 100"
    then show "priceBond ?b < call_flows ?b r"
      unfolding cf pb by (intro pv_flows_strict_antimono) auto
  qed simp
  then have "(1 + (1 / 100 - 1.99 / 2 ^ 61)) ^ 2 \<le> (1 + call_rate ?b) ^ 2"
    by (intro power_mono) auto
  moreover have "(1.02 :: real) \<le> (1 + (1 / 100 - 1.99 / 2 ^ 61)) ^ 2"
    by (simp add: power2_eq_square)
  ultimately have "0.02 \<le> (1 + call_rate ?b) ^ 2 - 1" by simp
  then have "0.02 \<le> yield_to_call ?b"
    by (simp add: yield_to_call_def)
  then show ?thesis
    using yieldToWorstApprox_callable [of ?b] by simp
qed

text \<open>
  Claim C8, amended. For every argument object with \<open>callable = true\<close>,
  \<open>callPrice = face\<close>, \<open>face > 0\<close>, \<open>years > 0\<close>, \<open>freq \<ge> 1\<close>, \<open>callYears\<close> in
  \<open>(0, years]\<close> and \<open>0 \<le> ytm < couponRate\<close>: the routine returns a value less than or
  equal to \<open>ytm\<close>; the per-period rate its search ends at is at most
  \<open>ytm / freq + 1.99 / 2 ^ 61\<close>, half a final interval above the per-period yield (a
  bond above par is worth no more at an earlier call date than at maturity); and the
  result is strictly less than \<open>ytm\<close> whenever the flows to the call date, discounted at
  some per-period rate \<open>r0 \<ge> -0.99\<close> with \<open>(1 + r0 + 1.99 / 2 ^ 61) ^ freq < 1 + ytm\<close>,
  are worth no more than the price. So it is for the semiannual 5% bond of face 1000 at
  a yield of 4% with two and a half years to maturity and a call date at two years,
  where the result is below \<open>0.04\<close>.
\<close>

theorem yieldToWorst_premium:
  "(callable b \<and> callPrice b = face b \<and> 0 < face b \<and> 0 < years b \<and> 1 \<le> freq b
      \<and> 0 < callYears b \<and> callYears b \<le> years b \<and> 0 \<le> ytm b \<and> ytm b < couponRate b
    \<longrightarrow> yieldToWorstApprox b \<le> ytm b
        \<and> call_rate b \<le> ytm b / real (freq b) + 1.99 / 2 ^ 61
        \<and> (\<forall>r0. - 0.99 \<le> r0 \<and> call_flows b r0 \<le> priceBond b
                   \<and> (1 + r0 + 1.99 / 2 ^ 61) ^ freq b < 1 + ytm b
                \<longrightarrow> yieldToWorstApprox b < ytm b))
   \<and> yieldToWorstApprox \<lparr>face = 1000, couponRate = 0.05, ytm = 0.04, years = 5/2, freq = 2,
                          callable = True, callYears = 2, callPrice = 1000\<rparr> < 0.04"
proof -
  have gen: "yieldToWorstApprox b \<le> ytm b
        \<and> call_rate b \<le> ytm b / real (freq b) + 1.99 / 2 ^ 61
        \<and> (\<forall>r0. - 0.99 \<le> r0 \<and> call_flows b r0 \<le> priceBond b
                   \<and> (1 + r0 + 1.99 / 2 ^ 61) ^ freq b < 1 + ytm b
                \<longrightarrow> yieldToWorstApprox b < ytm b)"
    if h: "callable b" "callPrice b = face b" "0 < face b" "1 \<le> freq b"
          "callYears b \<le> years b" "0 \<le> ytm b" "ytm b < couponRate b"
  proof -
    have le: "yieldToWorstApprox b \<le> ytm b"
      using h(1) by (simp add: yieldToWorstApprox_callable)
    have rate: "call_rate b \<le> ytm b / real (freq b) + 1.99 / 2 ^ 61"
      using h by (intro call_rate_premium) auto
    from h have c: "0 \<le> couponRate b * face b / real (freq b)" by simp
    have strict: "yieldToWorstApprox b < ytm b"
      if "- 0.99 \<le> r0" "call_flows b r0 \<le> priceBond b"
         "(1 + r0 + 1.99 / 2 ^ 61) ^ freq b < 1 + ytm b" for r0
      using h(1) c _ _ that
      by (rule yieldToWorst_strict_criterion) (use h in auto)
    from le rate strict show ?thesis by blast
  qed
  let ?b = "\<lparr>face = 1000, couponRate = 0.05, ytm = 0.04, years = 5/2, freq = 2,
             callable = True, callYears = 2, callPrice = 1000\<rparr>"
  have cf: "call_flows ?b = pv_flows 25 1000 4"
    by (simp add: call_flows_def)
  have pb: "priceBond ?b = pv_flows 25 1000 5 (1 / 50)"
    by (simp add: priceBond_pv_flows coupon_def periods_eq round_def)
  have "pv_flows 25 1000 4 (19 / 1000) \<le> pv_flows 25 1000 5 (1 / 50)"
    by (simp add: pv_flows_def eval_nat_numeral)
  then have worth: "call_flows ?b (19 / 1000) \<le> priceBond ?b"
    by (simp only: cf pb)
  have pw: "(1 + 19 / 1000 + 1.99 / 2 ^ 61) ^ freq ?b < 1 + ytm ?b"
    by (simp add: power2_eq_square)
  have "yieldToWorstApprox ?b < ytm ?b"
    by (rule yieldToWorst_strict_criterion [OF _ _ _ _ _ worth pw]) simp_all
  then have inst: "yieldToWorstApprox ?b < 0.04" by simp
  from gen inst show ?thesis by blast
qed

text \<open>
  A three-year annual 5% bond of face 1000 at a yield of 4%, callable at face after two
  years: at the per-period rate \<open>3.7%\<close> two years of coupons and the face are worth less
  than the price, so the result is strictly below the yield.
\<close>

theorem yieldToWorst_premium_witness:
  "yieldToWorstApprox \<lparr>face = 1000, couponRate = 0.05, ytm = 0.04, years = 3, freq = 1,
                        callable = True, callYears = 2, callPrice = 1000\<rparr> < 0.04
   \<and> call_rate \<lparr>face = 1000, couponRate = 0.05, ytm = 0.04, years = 3, freq = 1,
                 callable = True, callYears = 2, callPrice = 1000\<rparr> \<le> 0.04 + 1.99 / 2 ^ 61"
proof -
  let ?b = "\<lparr>face = 1000, couponRate = 0.05, ytm = 0.04, years = 3, freq = 1,
             callable = True, callYears = 2, callPrice = 1000\<rparr>"
  have cf: "call_flows ?b = pv_flows 50 1000 2"
    by (simp add: call_flows_def)
  have pb: "priceBond ?b = pv_flows 50 1000 3 (1 / 25)"
    by (simp add: priceBond_pv_flows coupon_def periods_eq)
  have "pv_flows 50 1000 2 (37 / 1000) \<le> pv_flows 50 1000 3 (1 / 25)"
    by (simp add: pv_flows_def eval_nat_numeral)
  then have worth: "call_flows ?b (37 / 1000) \<le> priceBond ?b"
    by (simp only: cf pb)
  have lo: "- 0.99 \<le> (37 / 1000 :: real)" by simp
  have pw: "(1 + 37 / 1000 + 1.99 / 2 ^ 61) ^ freq ?b < 1 + ytm ?b"
    by simp
  have hyps: "callable ?b \<and> callPrice ?b = face ?b \<and> 0 < face ?b \<and> 0 < years ?b
      \<and> 1 \<le> freq ?b \<and> 0 < callYears ?b \<and> callYears ?b \<le> years ?b \<and> 0 \<le> ytm ?b
      \<and> ytm ?b < couponRate ?b"
    by simp
  with yieldToWorst_premium [of ?b]
  have rate: "call_rate ?b \<le> ytm ?b / real (freq ?b) + 1.99 / 2 ^ 61"
    and all: "\<forall>r0. - 0.99 \<le> r0 \<and> call_flows ?b r0 \<le> priceBond ?b
               \<and> (1 + r0 + 1.99 / 2 ^ 61) ^ freq ?b < 1 + ytm ?b
            \<longrightarrow> yieldToWorstApprox ?b < ytm ?b"
    by blast+
  from all lo worth pw have "yieldToWorstApprox ?b < ytm ?b" by blast
  with rate show ?thesis by simp
qed

subsection \<open>The sampling grid\<close>

text \<open>
  Claim C3, as the specification words it, asks for sampled yields that are symmetric
  around \<open>ytm\<close> for every input. The floor at \<open>0.0001\<close> breaks the symmetry for a low
  yield: at \<open>ytm = 1%\<close> the first sample is \<open>0.0001\<close> and the last \<open>0.03\<close>.
\<close>

theorem grid_sampler_symmetry_counterexample:
  "sampled_yields
      \<lparr>ui_face = 1000, ui_couponPct = 5, ui_ytmPct = 1, ui_years = 10, ui_freq = 2,
       ui_bondType = Corporate, ui_callable = False, ui_putable = False,
       ui_sinking = False, ui_convertible = False\<rparr> ! 0 = 0.0001
   \<and> sampled_yields
      \<lparr>ui_face = 1000, ui_couponPct = 5, ui_ytmPct = 1, ui_years = 10, ui_freq = 2,
       ui_bondType = Corporate, ui_callable = False, ui_putable = False,
       ui_sinking = False, ui_convertible = False\<rparr> ! 40 = 0.03
   \<and> sampled_yields
      \<lparr>ui_face = 1000, ui_couponPct = 5, ui_ytmPct = 1, ui_years = 10, ui_freq = 2,
       ui_bondType = Corporate, ui_callable = False, ui_putable = False,
       ui_sinking = False, ui_convertible = False\<rparr> ! 0 - 1 / 100
     \<noteq> 1 / 100 - sampled_yields
      \<lparr>ui_face = 1000, ui_couponPct = 5, ui_ytmPct = 1, ui_years = 10, ui_freq = 2,
       ui_bondType = Corporate, ui_callable = False, ui_putable = False,
       ui_sinking = False, ui_convertible = False\<rparr> ! 40"
  by (simp add: sampled_yields_nth grid_yield_def)

text \<open>
  Claim C3, amended. The sampler always produces exactly 41 points, at the offsets
  \<open>-200\<close> to \<open>200\<close> basis points in steps of 10, each sampled yield being
  \<open>max 0.0001 (ytm + bps / 10000)\<close>; for every \<open>ytm\<close> the sampled yields are
  non-decreasing; and for \<open>ytm \<ge> 0.0201\<close>, where the floor touches no sample, they are
  strictly increasing and symmetric around \<open>ytm\<close>.
\<close>

theorem grid_sampler_shape:
  "length (points (computed s)) = 41
   \<and> sampled_yields s
       = map (\<lambda>bps. max 0.0001 (ui_ytmPct s / 100 + real_of_int bps / 10000)) grid_offsets
   \<and> sorted (sampled_yields s)
   \<and> (0.0201 \<le> ui_ytmPct s / 100 \<longrightarrow>
        sorted_wrt (<) (sampled_yields s)
        \<and> (\<forall>i<41. sampled_yields s ! i - ui_ytmPct s / 100
                     = ui_ytmPct s / 100 - sampled_yields s ! (40 - i)))"
proof -
  let ?ym = "ui_ytmPct s / 100"
  have shape: "sampled_yields s
                 = map (\<lambda>bps. max 0.0001 (?ym + real_of_int bps / 10000)) grid_offsets"
    by (rule nth_equalityI)
       (simp_all add: sampled_yields_length sampled_yields_nth grid_offsets_nth grid_yield_def
                      grid_offsets_def del: upt_Suc)
  have mono: "sorted (sampled_yields s)"
    unfolding sorted_iff_nth_mono
    by (simp add: sampled_yields_length sampled_yields_nth grid_yield_mono)
  have strict: "sorted_wrt (<) (sampled_yields s)" if "0.0201 \<le> ?ym"
    unfolding sorted_wrt_iff_nth_less
    using that by (simp add: sampled_yields_length sampled_yields_nth grid_yield_unclamped)
  have sym: "sampled_yields s ! i - ?ym = ?ym - sampled_yields s ! (40 - i)"
    if "0.0201 \<le> ?ym" and "i < 41" for i
  proof -
    define x where "x = real_of_int (- 200 + 10 * int i)"
    from that(2) have k: "int (40 - i) = 40 - int i" by simp
    have y: "real_of_int (- 200 + 10 * int (40 - i)) = - x"
      unfolding x_def k by simp
    have a: "sampled_yields s ! i = ?ym + x / 10000"
      unfolding x_def using that by (simp add: sampled_yields_nth grid_yield_unclamped)
    have b: "sampled_yields s ! (40 - i) = ?ym + (- x) / 10000"
      unfolding y [symmetric] using that
      by (simp add: sampled_yields_nth grid_yield_unclamped)
    show ?thesis unfolding a b by simp
  qed
  from shape mono strict sym computed_points_length [of s] show ?thesis
    by blast
qed

theorem grid_sampler_shape_witness:
  "sorted_wrt (<) (sampled_yields
      \<lparr>ui_face = 1000, ui_couponPct = 5, ui_ytmPct = 5, ui_years = 10, ui_freq = 2,
       ui_bondType = Corporate, ui_callable = False, ui_putable = False,
       ui_sinking = False, ui_convertible = False\<rparr>)
   \<and> sampled_yields
      \<lparr>ui_face = 1000, ui_couponPct = 5, ui_ytmPct = 5, ui_years = 10, ui_freq = 2,
       ui_bondType = Corporate, ui_callable = False, ui_putable = False,
       ui_sinking = False, ui_convertible = False\<rparr> ! 3 - 5 / 100
     = 5 / 100 - sampled_yields
      \<lparr>ui_face = 1000, ui_couponPct = 5, ui_ytmPct = 5, ui_years = 10, ui_freq = 2,
       ui_bondType = Corporate, ui_callable = False, ui_putable = False,
       ui_sinking = False, ui_convertible = False\<rparr> ! (40 - 3)"
proof -
  let ?s = "\<lparr>ui_face = 1000, ui_couponPct = 5, ui_ytmPct = 5, ui_years = 10, ui_freq = 2,
             ui_bondType = Corporate, ui_callable = False, ui_putable = False,
             ui_sinking = False, ui_convertible = False\<rparr>"
  have h: "0.0201 \<le> ui_ytmPct ?s / 100" by simp
  with grid_sampler_shape [of ?s]
  have strict: "sorted_wrt (<) (sampled_yields ?s)"
    and sym: "\<forall>i<41. sampled_yields ?s ! i - ui_ytmPct ?s / 100
                      = ui_ytmPct ?s / 100 - sampled_yields ?s ! (40 - i)"
    by blast+
  from sym have "sampled_yields ?s ! 3 - ui_ytmPct ?s / 100
                   = ui_ytmPct ?s / 100 - sampled_yields ?s ! (40 - 3)"
    by (rule allE [where x = 3]) simp
  with strict show ?thesis by simp
qed

text \<open>
  Claim C4, as the specification words it, concludes that no \<open>priceBond\<close> call inside
  the sampler receives a non-positive discount rate. With \<open>callable\<close> set, the second
  call of an iteration receives the yield-to-worst estimate and not the floored sample.
  For a three-year annual 5% bond of face 1000 at \<open>ytm = 0\<close>, the first sample is
  \<open>0.0001\<close>, the call date is two years out, the price of about 1149.7 exceeds what two
  years of coupons and the face are worth at any rate from \<open>-1%\<close> up, and the estimate
  passed to \<open>priceBond\<close> is negative.
\<close>

theorem callable_estimate_rate_counterexample:
  "PriceCallable (points (computed
       \<lparr>ui_face = 1000, ui_couponPct = 5, ui_ytmPct = 0, ui_years = 3, ui_freq = 1,
        ui_bondType = Corporate, ui_callable = True, ui_putable = False,
        ui_sinking = False, ui_convertible = False\<rparr>) ! 0)
     = priceBond \<lparr>face = 1000, couponRate = 0.05,
                  ytm = grid_ytw 1000 0.05 0.0001 3 1 True, years = 3, freq = 1\<rparr>
   \<and> grid_ytw 1000 0.05 0.0001 3 1 True < 0"
proof -
  let ?b = "\<lparr>face = 1000, couponRate = 0.05, ytm = 0.0001, years = 3, freq = 1,
             callable = True, callYears = min 3 (real_of_int (max 2 (round (3 / 2 :: real)))),
             callPrice = 1000\<rparr>"
  have rnd: "round (3 / 2 :: real) = 2"
    by (simp add: round_def)
  have cf: "call_flows ?b = pv_flows 50 1000 2"
    by (simp add: call_flows_def rnd)
  have pb: "priceBond ?b = pv_flows 50 1000 3 (1 / 10000)"
    by (simp add: priceBond_pv_flows coupon_def periods_eq)
  have num: "pv_flows 50 1000 2 (- (1 / 100)) \<le> pv_flows 50 1000 3 (1 / 10000)"
    by (simp add: pv_flows_def eval_nat_numeral)
  have "call_rate ?b \<le> - (1 / 100) + 1.99 / 2 ^ 61"
  proof (rule call_rate_upper)
    fix r :: real
    assume "- (1 / 100) \<le> r"
    then have "pv_flows 50 1000 2 r \<le> pv_flows 50 1000 2 (- (1 / 100))"
      by (intro pv_flows_antimono) auto
    with num show "call_flows ?b r \<le> priceBond ?b"
      unfolding cf pb by simp
  qed simp
  then have "call_rate ?b < 0" by simp
  then have "yield_to_call ?b < 0"
    by (simp add: yield_to_call_def)
  then have neg: "grid_ytw 1000 0.05 0.0001 3 1 True < 0"
    using yieldToWorstApprox_callable [of ?b] by (simp add: grid_ytw_def)
  have "PriceCallable (points (computed
       \<lparr>ui_face = 1000, ui_couponPct = 5, ui_ytmPct = 0, ui_years = 3, ui_freq = 1,
        ui_bondType = Corporate, ui_callable = True, ui_putable = False,
        ui_sinking = False, ui_convertible = False\<rparr>) ! 0)
     = priceBond \<lparr>face = 1000, couponRate = 0.05,
                  ytm = grid_ytw 1000 0.05 0.0001 3 1 True, years = 3, freq = 1\<rparr>"
    by (simp add: computed_points_nth PriceCallable_grid_point grid_yield_def)
  with neg show ?thesis by blast
qed

text \<open>
  Claim C4, amended. For every input \<open>ytm\<close> and every offset \<open>bps\<close> of the grid, the
  sampled yield equals \<open>max 0.0001 (ytm + bps / 10000)\<close>; hence every sampled yield is at
  least \<open>0.0001\<close>, and the \<open>priceBond\<close> call that computes \<open>Price\<close> receives that yield.
  With \<open>callable\<close> unset there is no other call. With \<open>callable\<close> set, the call that
  computes the callable estimate receives the yield to worst at the sampled yield,
  which lies between \<open>-0.99\<close> and the sampled yield.
\<close>

theorem sampled_yield_floor:
  "\<forall>i<41.
     sampled_yields s ! i
       = max 0.0001 (ui_ytmPct s / 100 + real_of_int (grid_offsets ! i) / 10000)
     \<and> 0.0001 \<le> sampled_yields s ! i
     \<and> Price (points (computed s) ! i)
         = priceBond \<lparr>face = ui_face s, couponRate = ui_couponPct s / 100,
                      ytm = sampled_yields s ! i, years = ui_years s, freq = ui_freq s\<rparr>
     \<and> (\<not> ui_callable s \<longrightarrow>
          PriceCallable (points (computed s) ! i) = Price (points (computed s) ! i))
     \<and> (ui_callable s \<longrightarrow>
          PriceCallable (points (computed s) ! i)
            = priceBond \<lparr>face = ui_face s, couponRate = ui_couponPct s / 100,
                         ytm = grid_ytw (ui_face s) (ui_couponPct s / 100)
                                 (sampled_yields s ! i) (ui_years s) (ui_freq s) True,
                         years = ui_years s, freq = ui_freq s\<rparr>
          \<and> - 0.99 \<le> grid_ytw (ui_face s) (ui_couponPct s / 100)
                         (sampled_yields s ! i) (ui_years s) (ui_freq s) True
          \<and> grid_ytw (ui_face s) (ui_couponPct s / 100)
                (sampled_yields s ! i) (ui_years s) (ui_freq s) True \<le> sampled_yields s ! i)"
proof (intro allI impI)
  fix i :: nat
  assume i: "i < 41"
  let ?y = "sampled_yields s ! i"
  let ?pt = "points (computed s) ! i"
  let ?w = "grid_ytw (ui_face s) (ui_couponPct s / 100) ?y (ui_years s) (ui_freq s) True"
  have y: "?y = grid_yield (ui_ytmPct s / 100) (- 200 + 10 * int i)"
    using i by (rule sampled_yields_nth)
  have shape: "?y = max 0.0001 (ui_ytmPct s / 100 + real_of_int (grid_offsets ! i) / 10000)"
    using i by (simp add: y grid_offsets_nth grid_yield_def)
  have floor: "0.0001 \<le> ?y"
    unfolding y by (rule grid_yield_floor)
  have p: "Price ?pt = priceBond \<lparr>face = ui_face s, couponRate = ui_couponPct s / 100,
                                   ytm = ?y, years = ui_years s, freq = ui_freq s\<rparr>"
    using i by (simp add: y computed_points_nth Price_grid_point)
  have nc: "PriceCallable ?pt = Price ?pt" if "\<not> ui_callable s"
    using i that by (simp add: computed_points_nth PriceCallable_grid_point)
  have c: "PriceCallable ?pt
             = priceBond \<lparr>face = ui_face s, couponRate = ui_couponPct s / 100,
                          ytm = ?w, years = ui_years s, freq = ui_freq s\<rparr>"
    if "ui_callable s"
    using i that by (simp add: y computed_points_nth PriceCallable_grid_point)
  from floor have "- 0.99 < ?y" by simp
  then have w: "- 0.99 \<le> ?w \<and> ?w \<le> ?y"
    by (intro grid_ytw_bounds) simp
  from shape floor p nc c w
  show "?y = max 0.0001 (ui_ytmPct s / 100 + real_of_int (grid_offsets ! i) / 10000)
     \<and> 0.0001 \<le> ?y
     \<and> Price ?pt = priceBond \<lparr>face = ui_face s, couponRate = ui_couponPct s / 100,
                                 ytm = ?y, years = ui_years s, freq = ui_freq s\<rparr>
     \<and> (\<not> ui_callable s \<longrightarrow> PriceCallable ?pt = Price ?pt)
     \<and> (ui_callable s \<longrightarrow>
          PriceCallable ?pt
            = priceBond \<lparr>face = ui_face s, couponRate = ui_couponPct s / 100,
                         ytm = ?w, years = ui_years s, freq = ui_freq s\<rparr>
          \<and> - 0.99 \<le> ?w \<and> ?w \<le> ?y)"
    by blast
qed

theorem sampled_yield_floor_witness:
  "0.0001 \<le> sampled_yields
      \<lparr>ui_face = 1000, ui_couponPct = 5, ui_ytmPct = 1, ui_years = 10, ui_freq = 2,
       ui_bondType = Corporate, ui_callable = False, ui_putable = False,
       ui_sinking = False, ui_convertible = False\<rparr> ! 5
   \<and> - 0.99 \<le> grid_ytw 1000 (5 / 100)
        (sampled_yields
          \<lparr>ui_face = 1000, ui_couponPct = 5, ui_ytmPct = 1, ui_years = 10, ui_freq = 2,
           ui_bondType = Corporate, ui_callable = True, ui_putable = False,
           ui_sinking = False, ui_convertible = False\<rparr> ! 5) 10 2 True"
proof -
  let ?s = "\<lparr>ui_face = 1000, ui_couponPct = 5, ui_ytmPct = 1, ui_years = 10, ui_freq = 2,
             ui_bondType = Corporate, ui_callable = False, ui_putable = False,
             ui_sinking = False, ui_convertible = False\<rparr>"
  let ?t = "\<lparr>ui_face = 1000, ui_couponPct = 5, ui_ytmPct = 1, ui_years = 10, ui_freq = 2,
             ui_bondType = Corporate, ui_callable = True, ui_putable = False,
             ui_sinking = False, ui_convertible = False\<rparr>"
  have five: "(5 :: nat) < 41" by simp
  from sampled_yield_floor [of ?s, rule_format, OF five]
  have a: "0.0001 \<le> sampled_yields ?s ! 5" by blast
  have cl: "ui_callable ?t" by simp
  from sampled_yield_floor [of ?t, rule_format, OF five] cl
  have "- 0.99 \<le> grid_ytw (ui_face ?t) (ui_couponPct ?t / 100)
                    (sampled_yields ?t ! 5) (ui_years ?t) (ui_freq ?t) True"
    by blast
  with a show ?thesis by simp
qed

subsection \<open>The memoised computation\<close>

text \<open>
  Claim C9. The Putable, Sinking Fund and Convertible flags have no effect on what is
  computed: two states that differ only in these flags give the same price, durations,
  current yield, yield to worst and chart points.
\<close>

theorem flags_without_effect:
  "computed (s\<lparr>ui_putable := p, ui_sinking := k, ui_convertible := c\<rparr>) = computed s"
  by (simp add: computed_def)

theorem flags_without_effect_witness:
  "computed \<lparr>ui_face = 1000, ui_couponPct = 5, ui_ytmPct = 5, ui_years = 10, ui_freq = 2,
             ui_bondType = Corporate, ui_callable = True, ui_putable = True,
             ui_sinking = True, ui_convertible = True\<rparr>
   = computed \<lparr>ui_face = 1000, ui_couponPct = 5, ui_ytmPct = 5, ui_years = 10, ui_freq = 2,
               ui_bondType = Corporate, ui_callable = True, ui_putable = False,
               ui_sinking = False, ui_convertible = False\<rparr>"
  using flags_without_effect
          [of True True True
              "\<lparr>ui_face = 1000, ui_couponPct = 5, ui_ytmPct = 5, ui_years = 10, ui_freq = 2,
                ui_bondType = Corporate, ui_callable = True, ui_putable = False,
                ui_sinking = False, ui_convertible = False\<rparr>"]
  by simp

text \<open>
  Claim C10. When \<open>callable\<close> is false, each of the 41 chart points carries under
  \<^verbatim>\<open>"Price (Callable est)"\<close> the same value as under \<open>Price\<close>, and that value is the
  price of the bond at the sampled yield: the second series repeats the first and is
  neither absent nor zero.
\<close>

theorem callable_series_degenerates:
  "\<not> ui_callable s \<Longrightarrow>
     length (points (computed s)) = 41
     \<and> (\<forall>i<41. PriceCallable (points (computed s) ! i) = Price (points (computed s) ! i)
              \<and> PriceCallable (points (computed s) ! i)
                  = priceBond \<lparr>face = ui_face s, couponRate = ui_couponPct s / 100,
                               ytm = max 0.0001 (ui_ytmPct s / 100
                                       + real_of_int (- 200 + 10 * int i) / 10000),
                               years = ui_years s, freq = ui_freq s\<rparr>)"
  by (simp add: computed_points_length computed_points_nth PriceCallable_grid_point
                Price_grid_point grid_yield_def)

text \<open>
  The default state of the component: at the middle of the grid the sampled yield is the
  coupon rate, and both series show the par price.
\<close>

theorem callable_series_degenerates_witness:
  "PriceCallable (points (computed
      \<lparr>ui_face = 1000, ui_couponPct = 5, ui_ytmPct = 5, ui_years = 10, ui_freq = 2,
       ui_bondType = Corporate, ui_callable = False, ui_putable = False,
       ui_sinking = False, ui_convertible = False\<rparr>) ! 20) = 1000
   \<and> Price (points (computed
      \<lparr>ui_face = 1000, ui_couponPct = 5, ui_ytmPct = 5, ui_years = 10, ui_freq = 2,
       ui_bondType = Corporate, ui_callable = False, ui_putable = False,
       ui_sinking = False, ui_convertible = False\<rparr>) ! 20) = 1000"
proof -
  let ?s = "\<lparr>ui_face = 1000, ui_couponPct = 5, ui_ytmPct = 5, ui_years = 10, ui_freq = 2,
             ui_bondType = Corporate, ui_callable = False, ui_putable = False,
             ui_sinking = False, ui_convertible = False\<rparr>"
  have par: "priceBond \<lparr>face = 1000, couponRate = 1 / 20, ytm = 1 / 20, years = 10, freq = 2\<rparr>
               = 1000"
    using pv_flows_par [of "0.05 / 2" 1000 "nat (periods 10 2)"]
    by (simp add: priceBond_pv_flows coupon_def)
  have nc: "\<not> ui_callable ?s" by simp
  have mid: "(20 :: nat) < 41" by simp
  from callable_series_degenerates [OF nc]
  have "PriceCallable (points (computed ?s) ! 20) = Price (points (computed ?s) ! 20)
        \<and> PriceCallable (points (computed ?s) ! 20)
            = priceBond \<lparr>face = ui_face ?s, couponRate = ui_couponPct ?s / 100,
                         ytm = max 0.0001 (ui_ytmPct ?s / 100
                                 + real_of_int (- 200 + 10 * int 20) / 10000),
                         years = ui_years ?s, freq = ui_freq ?s\<rparr>"
    using mid by blast
  then show ?thesis by (simp add: par)
qed

end
